theory Spec2Isabelle
  imports Main "HOL-Library.Sublist" "HOL-Library.List_Lexorder" "HOL-Library.Multiset"
begin

section \<open>The filesystem server of \<^verbatim>\<open>mcp_server.py\<close>\<close>

text \<open>
  The development embeds \<^verbatim>\<open>FilesystemMCPServer\<close>: the path check
  \<^verbatim>\<open>_validate_path\<close>, the three handlers \<^verbatim>\<open>_read_file\<close>,
  \<^verbatim>\<open>_list_directory\<close>, \<^verbatim>\<open>_write_file\<close>, and the dispatcher
  \<^verbatim>\<open>call_tool\<close>. The Python library calls the code makes (\<^verbatim>\<open>pathlib\<close>,
  \<^verbatim>\<open>os.path\<close>, text-mode file I/O, \<^verbatim>\<open>str\<close> of an exception) are modelled
  beside it, as CPython behaves on a POSIX system:
  \<^item> a Python \<^verbatim>\<open>str\<close> is the list of its code points, a file's content the list
    of its bytes, and UTF-8 stands between the two;
  \<^item> the file system is a tree of regular files and directories. It has no symbolic
    links, so \<^verbatim>\<open>Path.resolve()\<close> is the normalisation of \<^verbatim>\<open>.\<close>,
    \<^verbatim>\<open>..\<close> and repeated separators that \<^verbatim>\<open>os.path.realpath\<close> performs;
    permissions, quotas and path strings the operating system refuses outright
    (an embedded NUL) are outside the model;
  \<^item> an exception is a value: a handler returns \<open>Inl e\<close> where the Python raises
    \<open>e\<close>, together with the state it leaves behind;
  \<^item> every \<^verbatim>\<open>pathlib\<close> call that touches the file system is recorded in a
    trace, so that "no filesystem call is made" is a statement about the trace;
  \<^item> logging is left out: it writes to the standard error stream only.
\<close>

subsection \<open>Python strings and values\<close>

type_synonym pystr = "nat list"

text \<open>A string literal of the source, as code points.\<close>

definition lit :: "string \<Rightarrow> pystr" where
  "lit s = map of_char s"

text \<open>The values a decoded JSON argument mapping can carry.\<close>

datatype pyval =
    PyStr pystr
  | PyInt int
  | PyBool bool
  | PyNone
  | PyList "pyval list"
  | PyDict "(pystr \<times> pyval) list"

text \<open>\<^verbatim>\<open>type(v).__name__\<close>\<close>

fun type_name :: "pyval \<Rightarrow> pystr" where
  "type_name (PyStr _) = lit ''str''"
| "type_name (PyInt _) = lit ''int''"
| "type_name (PyBool _) = lit ''bool''"
| "type_name PyNone = lit ''NoneType''"
| "type_name (PyList _) = lit ''list''"
| "type_name (PyDict _) = lit ''dict''"

text \<open>\<^verbatim>\<open>str(n)\<close> for a natural number: its decimal digits.\<close>

function decimal :: "nat \<Rightarrow> pystr" where
  "decimal n = (if n < 10 then [48 + n] else decimal (n div 10) @ [48 + n mod 10])"
  by pat_completeness auto
termination
  by (relation "measure (\<lambda>n. n)") auto

declare decimal.simps [simp del]

definition hex_digit :: "nat \<Rightarrow> nat" where
  "hex_digit d = (if d < 10 then 48 + d else 87 + d)"

definition hex2 :: "nat \<Rightarrow> pystr" where
  "hex2 c = [hex_digit (c div 16 mod 16), hex_digit (c mod 16)]"

definition hex4 :: "nat \<Rightarrow> pystr" where
  "hex4 c = hex2 (c div 256) @ hex2 c"

definition surrogate :: "nat \<Rightarrow> bool" where
  "surrogate c = (0xD800 \<le> c \<and> c \<le> 0xDFFF)"

text \<open>
  \<^verbatim>\<open>repr(s)\<close> of a string: single quotes, unless the string holds a single and no
  double quote; the quote, the backslash (92) and the ASCII control characters escaped
  (\<^verbatim>\<open>t\<close>, \<^verbatim>\<open>n\<close>, \<^verbatim>\<open>r\<close> after a backslash for tab, line feed and carriage return,
  \<^verbatim>\<open>x\<close> and two hexadecimal digits for the others).
  Of the characters beyond ASCII only the surrogates are escaped here; CPython also
  escapes those its Unicode tables class as non-printable.
\<close>

definition repr_quote :: "pystr \<Rightarrow> nat" where
  "repr_quote s = (if 39 \<in> set s \<and> 34 \<notin> set s then 34 else 39)"

definition repr_char :: "nat \<Rightarrow> nat \<Rightarrow> pystr" where
  "repr_char q c =
     (if c = q \<or> c = 92 then [92, c]
      else if c = 9 then [92, 116]
      else if c = 10 then [92, 110]
      else if c = 13 then [92, 114]
      else if c < 32 \<or> c = 127 then [92, 120] @ hex2 c
      else if surrogate c then [92, 117] @ hex4 c
      else [c])"

definition repr :: "pystr \<Rightarrow> pystr" where
  "repr s = (let q = repr_quote s in [q] @ concat (map (repr_char q) s) @ [q])"

subsection \<open>Exceptions and their messages\<close>

datatype errno = ENOENT | EEXIST | ENOTDIR | EISDIR

datatype exn =
    ValueError pystr
  | FileNotFoundError pystr
  | KeyError pystr
  | TypeError pystr
  | OSError errno pystr
  | UnicodeEncodeError pystr nat nat

text \<open>
  \<open>ValueError\<close>, \<open>FileNotFoundError\<close> and \<open>TypeError\<close> carry the one message they
  were raised with. \<open>KeyError\<close> carries the missing key. \<open>OSError\<close> stands for the
  errors the operating system reports (\<^verbatim>\<open>FileExistsError\<close>,
  \<^verbatim>\<open>NotADirectoryError\<close>, \<^verbatim>\<open>IsADirectoryError\<close>, and
  \<^verbatim>\<open>FileNotFoundError\<close> with an errno), with the file name they name.
  \<open>UnicodeEncodeError\<close> carries the string and the span of the characters the
  \<^verbatim>\<open>utf-8\<close> codec refused.
\<close>

fun errno_num :: "errno \<Rightarrow> nat" where
  "errno_num ENOENT = 2"
| "errno_num EEXIST = 17"
| "errno_num ENOTDIR = 20"
| "errno_num EISDIR = 21"

fun strerror :: "errno \<Rightarrow> pystr" where
  "strerror ENOENT = lit ''No such file or directory''"
| "strerror EEXIST = lit ''File exists''"
| "strerror ENOTDIR = lit ''Not a directory''"
| "strerror EISDIR = lit ''Is a directory''"

text \<open>\<^verbatim>\<open>str(e)\<close>, which \<^verbatim>\<open>call_tool\<close> formats into its reply.\<close>

fun exn_str :: "exn \<Rightarrow> pystr" where
  "exn_str (ValueError m) = m"
| "exn_str (FileNotFoundError m) = m"
| "exn_str (KeyError k) = repr k"
| "exn_str (TypeError m) = m"
| "exn_str (OSError e f) =
     lit ''[Errno '' @ decimal (errno_num e) @ lit ''] '' @ strerror e @ lit '': '' @ repr f"
| "exn_str (UnicodeEncodeError s i j) =
     (if j = i + 1
      then [39] @ lit ''utf-8'' @ [39] @ lit '' codec can'' @ [39] @ lit ''t encode character ''
           @ [39] @ repr_char 39 (s ! i) @ [39]
           @ lit '' in position '' @ decimal i @ lit '': surrogates not allowed''
      else [39] @ lit ''utf-8'' @ [39] @ lit '' codec can'' @ [39] @ lit ''t encode characters''
           @ lit '' in position '' @ decimal i @ lit ''-'' @ decimal (j - 1)
           @ lit '': surrogates not allowed'')"

text \<open>\<^verbatim>\<open>len(v)\<close>: defined on strings and containers only.\<close>

fun py_len :: "pyval \<Rightarrow> exn + nat" where
  "py_len (PyStr s) = Inr (length s)"
| "py_len (PyList xs) = Inr (length xs)"
| "py_len (PyDict kvs) = Inr (length kvs)"
| "py_len v = Inl (TypeError (lit ''object of type '' @ repr (type_name v) @ lit '' has no len()''))"

subsection \<open>Text files: UTF-8 and line endings\<close>

text \<open>
  \<^verbatim>\<open>write_text(content, encoding='utf-8')\<close> encodes the string; the codec refuses
  surrogates, and reports the first run of them. On POSIX the text layer writes a
  line feed as it is.
\<close>

definition utf8_char :: "nat \<Rightarrow> nat list" where
  "utf8_char c =
     (if c < 0x80 then [c]
      else if c < 0x800 then [0xC0 + c div 64, 0x80 + c mod 64]
      else if c < 0x10000 then [0xE0 + c div 4096, 0x80 + c div 64 mod 64, 0x80 + c mod 64]
      else [0xF0 + c div 262144, 0x80 + c div 4096 mod 64, 0x80 + c div 64 mod 64,
            0x80 + c mod 64])"

definition first_surrogates :: "pystr \<Rightarrow> (nat \<times> nat) option" where
  "first_surrogates s =
     (let i = length (takeWhile (\<lambda>c. \<not> surrogate c) s)
      in if i = length s then None
         else Some (i, i + length (takeWhile surrogate (drop i s))))"

definition utf8_encode :: "pystr \<Rightarrow> exn + nat list" where
  "utf8_encode s =
     (case first_surrogates s of
        Some (i, j) \<Rightarrow> Inl (UnicodeEncodeError s i j)
      | None \<Rightarrow> Inr (concat (map utf8_char s)))"

text \<open>
  \<^verbatim>\<open>read_text(encoding='utf-8')\<close> decodes strictly: a lead byte, the continuation
  bytes it announces, and a code point that is in the shortest form, is no surrogate
  and lies below \<open>0x110000\<close>.
\<close>

definition continuation :: "nat \<Rightarrow> bool" where
  "continuation b = (0x80 \<le> b \<and> b < 0xC0)"

fun utf8_next :: "nat list \<Rightarrow> (nat \<times> nat list) option" where
  "utf8_next [] = None"
| "utf8_next (b # bs) =
     (if b < 0x80 then Some (b, bs)
      else if 0xC0 \<le> b \<and> b < 0xE0 then
        (case bs of
           b1 # r \<Rightarrow>
             (let c = (b - 0xC0) * 64 + (b1 - 0x80)
              in if continuation b1 \<and> 0x80 \<le> c then Some (c, r) else None)
         | _ \<Rightarrow> None)
      else if 0xE0 \<le> b \<and> b < 0xF0 then
        (case bs of
           b1 # b2 # r \<Rightarrow>
             (let c = (b - 0xE0) * 4096 + (b1 - 0x80) * 64 + (b2 - 0x80)
              in if continuation b1 \<and> continuation b2 \<and> 0x800 \<le> c \<and> \<not> surrogate c
                 then Some (c, r) else None)
         | _ \<Rightarrow> None)
      else if 0xF0 \<le> b \<and> b < 0xF8 then
        (case bs of
           b1 # b2 # b3 # r \<Rightarrow>
             (let c = (b - 0xF0) * 262144 + (b1 - 0x80) * 4096 + (b2 - 0x80) * 64 + (b3 - 0x80)
              in if continuation b1 \<and> continuation b2 \<and> continuation b3
                    \<and> 0x10000 \<le> c \<and> c < 0x110000
                 then Some (c, r) else None)
         | _ \<Rightarrow> None)
      else None)"

lemma utf8_next_shorter: "utf8_next bs = Some (c, r) \<Longrightarrow> length r < length bs"
  by (cases bs) (auto split: if_splits list.splits simp: Let_def)

function utf8_decode :: "nat list \<Rightarrow> pystr option" where
  "utf8_decode bs =
     (if bs = [] then Some []
      else (case utf8_next bs of
              None \<Rightarrow> None
            | Some (c, r) \<Rightarrow> map_option ((#) c) (utf8_decode r)))"
  by pat_completeness auto
termination
  by (relation "measure length") (auto simp: utf8_next_shorter)

declare utf8_decode.simps [simp del]

text \<open>
  A file opened for reading in text mode with the default \<^verbatim>\<open>newline=None\<close> has
  universal newlines: a carriage return, alone or before a line feed, is read as one
  line feed. The flag says that the character before was a carriage return.
\<close>

fun translate_newlines :: "bool \<Rightarrow> pystr \<Rightarrow> pystr" where
  "translate_newlines after_cr [] = []"
| "translate_newlines after_cr (c # cs) =
     (if c = 13 then 10 # translate_newlines True cs
      else if c = 10 \<and> after_cr then translate_newlines False cs
      else c # translate_newlines False cs)"

definition universal_newlines :: "pystr \<Rightarrow> pystr" where
  "universal_newlines s = translate_newlines False s"

subsection \<open>Paths\<close>

text \<open>
  A resolved path is absolute and normalised: the list of its components below the
  root \<^verbatim>\<open>/\<close>. \<^verbatim>\<open>os.path.isabs\<close> on POSIX asks for a leading separator (47).
\<close>

type_synonym path = "pystr list"

definition isabs :: "pystr \<Rightarrow> bool" where
  "isabs s = (case s of [] \<Rightarrow> False | c # _ \<Rightarrow> c = 47)"

text \<open>\<^verbatim>\<open>s.split('/')\<close>\<close>

fun split_sep :: "pystr \<Rightarrow> pystr list" where
  "split_sep [] = [[]]"
| "split_sep (c # cs) =
     (if c = 47 then [] # split_sep cs
      else (case split_sep cs of [] \<Rightarrow> [[c]] | x # xs \<Rightarrow> (c # x) # xs))"

text \<open>
  \<^verbatim>\<open>os.path.realpath\<close> walks the components: an empty one and \<^verbatim>\<open>.\<close> are
  skipped, \<^verbatim>\<open>..\<close> drops the last component (none at the root), any other name is
  appended. \<open>realpath base s\<close> is the resolution of the string \<open>s\<close> below the resolved
  directory \<open>base\<close>; an absolute string is resolved below the root \<open>[]\<close>.
\<close>

definition realpath_step :: "path \<Rightarrow> pystr \<Rightarrow> path" where
  "realpath_step p name =
     (if name = [] \<or> name = lit ''.'' then p
      else if name = lit ''..'' then butlast p
      else p @ [name])"

definition realpath :: "path \<Rightarrow> pystr \<Rightarrow> path" where
  "realpath base s = foldl realpath_step base (split_sep s)"

text \<open>\<^verbatim>\<open>str(path)\<close>, \<^verbatim>\<open>path.name\<close> and \<^verbatim>\<open>path.parent\<close> of a resolved path.\<close>

definition Path_str :: "path \<Rightarrow> pystr" where
  "Path_str p = (if p = [] then [47] else concat (map (\<lambda>c. 47 # c) p))"

definition Path_name :: "path \<Rightarrow> pystr" where
  "Path_name p = (if p = [] then [] else last p)"

definition Path_parent :: "path \<Rightarrow> path" where
  "Path_parent p = butlast p"

text \<open>
  \<^verbatim>\<open>self.relative_to(other)\<close> compares components: the rest of \<open>self\<close> below
  \<open>other\<close>, or \<open>None\<close> where \<^verbatim>\<open>pathlib\<close> raises its \<^verbatim>\<open>ValueError\<close>.
\<close>

definition relative_to :: "path \<Rightarrow> path \<Rightarrow> path option" where
  "relative_to self other =
     (if take (length other) self = other then Some (drop (length other) self) else None)"

subsection \<open>Path validation\<close>

record server =
  allowed_directory :: path

text \<open>The path \<^verbatim>\<open>_validate_path\<close> computes first, \<^verbatim>\<open>full_path\<close>.\<close>

definition full_path :: "server \<Rightarrow> pystr \<Rightarrow> path" where
  "full_path srv file_path =
     (if isabs file_path then realpath [] file_path
      else realpath (allowed_directory srv) file_path)"

definition validate_path :: "server \<Rightarrow> pystr \<Rightarrow> exn + path" where
  "validate_path srv file_path =
     (case relative_to (full_path srv file_path) (allowed_directory srv) of
        None \<Rightarrow>
          Inl (ValueError (lit ''Access denied: '' @ file_path
                           @ lit '' is outside allowed directory ''
                           @ Path_str (allowed_directory srv)))
      | Some _ \<Rightarrow> Inr (full_path srv file_path))"

text \<open>
  A handler given a value that is no string fails in \<^verbatim>\<open>os.path.isabs\<close>, the first
  thing \<^verbatim>\<open>_validate_path\<close> does with it.
\<close>

definition fspath_TypeError :: "pyval \<Rightarrow> exn" where
  "fspath_TypeError v =
     TypeError (lit ''expected str, bytes or os.PathLike object, not '' @ type_name v)"

subsection \<open>The file system\<close>

text \<open>
  A node is a regular file with its bytes, or a directory with its entries by name.
  \<open>walk\<close> resolves a path from the root as the kernel does: a missing name is
  \<open>ENOENT\<close>, a name looked up in a regular file is \<open>ENOTDIR\<close>.
\<close>

datatype node = File "nat list" | Dir "(pystr \<times> node) list"

fun walk :: "node \<Rightarrow> path \<Rightarrow> errno + node" where
  "walk n [] = Inr n"
| "walk (File b) (c # cs) = Inl ENOTDIR"
| "walk (Dir es) (c # cs) =
     (case map_of es c of None \<Rightarrow> Inl ENOENT | Some n \<Rightarrow> walk n cs)"

fun set_entry :: "pystr \<Rightarrow> node \<Rightarrow> (pystr \<times> node) list \<Rightarrow> (pystr \<times> node) list" where
  "set_entry k v [] = [(k, v)]"
| "set_entry k v ((k', v') # es) =
     (if k' = k then (k, v) # es else (k', v') # set_entry k v es)"

text \<open>
  \<open>put t p new\<close> stores \<open>new\<close> at \<open>p\<close>, as a new entry of the parent directory or in
  place of the entry of that name. Its callers have checked that the parent is a
  directory; where it is not, the tree stays as it is.
\<close>

fun put :: "node \<Rightarrow> path \<Rightarrow> node \<Rightarrow> node" where
  "put n [] new = new"
| "put (File b) (c # cs) new = File b"
| "put (Dir es) (c # cs) new =
     (case map_of es c of
        Some n \<Rightarrow> Dir (set_entry c (put n cs new) es)
      | None \<Rightarrow> (if cs = [] then Dir (set_entry c new es) else Dir es))"

text \<open>
  The \<^verbatim>\<open>pathlib\<close> queries. \<^verbatim>\<open>exists\<close>, \<^verbatim>\<open>is_file\<close> and \<^verbatim>\<open>is_dir\<close>
  answer \<^verbatim>\<open>False\<close> where the walk fails. \<open>file_size\<close> is \<^verbatim>\<open>stat().st_size\<close> of a
  regular file (and 0 elsewhere: the code asks only after \<^verbatim>\<open>is_file\<close>).
\<close>

definition Path_exists :: "node \<Rightarrow> path \<Rightarrow> bool" where
  "Path_exists t p = (case walk t p of Inr _ \<Rightarrow> True | Inl _ \<Rightarrow> False)"

definition Path_is_file :: "node \<Rightarrow> path \<Rightarrow> bool" where
  "Path_is_file t p = (case walk t p of Inr (File _) \<Rightarrow> True | _ \<Rightarrow> False)"

definition Path_is_dir :: "node \<Rightarrow> path \<Rightarrow> bool" where
  "Path_is_dir t p = (case walk t p of Inr (Dir _) \<Rightarrow> True | _ \<Rightarrow> False)"

definition file_size :: "node \<Rightarrow> path \<Rightarrow> nat" where
  "file_size t p = (case walk t p of Inr (File b) \<Rightarrow> length b | _ \<Rightarrow> 0)"

definition Path_iterdir :: "node \<Rightarrow> path \<Rightarrow> errno + path list" where
  "Path_iterdir t p =
     (case walk t p of
        Inl e \<Rightarrow> Inl e
      | Inr (File _) \<Rightarrow> Inl ENOTDIR
      | Inr (Dir es) \<Rightarrow> Inr (map (\<lambda>(name, _). p @ [name]) es))"

text \<open>
  \<^verbatim>\<open>os.mkdir\<close>: the root exists; the parent must resolve to a directory that has
  no entry of the new name.
\<close>

definition os_mkdir :: "node \<Rightarrow> path \<Rightarrow> errno + node" where
  "os_mkdir t p =
     (if p = [] then Inl EEXIST
      else (case walk t (butlast p) of
              Inl e \<Rightarrow> Inl e
            | Inr (File _) \<Rightarrow> Inl ENOTDIR
            | Inr (Dir es) \<Rightarrow>
                (case map_of es (last p) of
                   Some _ \<Rightarrow> Inl EEXIST
                 | None \<Rightarrow> Inr (put t p (Dir [])))))"

text \<open>
  \<^verbatim>\<open>Path.mkdir(parents=False, exist_ok=True)\<close> and
  \<^verbatim>\<open>Path.mkdir(parents=True, exist_ok=True)\<close>, as \<^verbatim>\<open>pathlib\<close> writes them: try
  \<^verbatim>\<open>os.mkdir\<close>; on \<open>ENOENT\<close> make the parent first (with parents) and try once
  more; on another error succeed if the path is a directory already. An error comes
  with the path it was raised for.
\<close>

definition mkdir_exist_ok :: "node \<Rightarrow> path \<Rightarrow> (errno \<times> path) + node" where
  "mkdir_exist_ok t p =
     (case os_mkdir t p of
        Inr t' \<Rightarrow> Inr t'
      | Inl e \<Rightarrow>
          (if e = ENOENT then Inl (e, p)
           else if Path_is_dir t p then Inr t else Inl (e, p)))"

function mkdir_parents :: "node \<Rightarrow> path \<Rightarrow> (errno \<times> path) + node" where
  "mkdir_parents t p =
     (case os_mkdir t p of
        Inr t' \<Rightarrow> Inr t'
      | Inl e \<Rightarrow>
          (if e = ENOENT then
             (if p = [] then Inl (e, p)
              else (case mkdir_parents t (butlast p) of
                      Inl x \<Rightarrow> Inl x
                    | Inr t' \<Rightarrow> mkdir_exist_ok t' p))
           else if Path_is_dir t p then Inr t else Inl (e, p)))"
  by pat_completeness auto
termination
  by (relation "measure (\<lambda>(t, p). length p)") auto

declare mkdir_parents.simps [simp del]

text \<open>
  \<^verbatim>\<open>open(p, 'w')\<close> creates the file or truncates it; \<^verbatim>\<open>write_text\<close> checks the
  type of its data, opens the file, then encodes and writes. An encoding error
  leaves the file as \<^verbatim>\<open>open\<close> left it: empty.
\<close>

definition open_w :: "node \<Rightarrow> path \<Rightarrow> errno + node" where
  "open_w t p =
     (if p = [] then Inl EISDIR
      else (case walk t (butlast p) of
              Inl e \<Rightarrow> Inl e
            | Inr (File _) \<Rightarrow> Inl ENOTDIR
            | Inr (Dir es) \<Rightarrow>
                (case map_of es (last p) of
                   Some (Dir _) \<Rightarrow> Inl EISDIR
                 | _ \<Rightarrow> Inr (put t p (File [])))))"

definition Path_write_text :: "node \<Rightarrow> path \<Rightarrow> pyval \<Rightarrow> (exn + nat) \<times> node" where
  "Path_write_text t p data =
     (case data of
        PyStr s \<Rightarrow>
          (case open_w t p of
             Inl e \<Rightarrow> (Inl (OSError e (Path_str p)), t)
           | Inr t1 \<Rightarrow>
               (case utf8_encode s of
                  Inl e \<Rightarrow> (Inl e, t1)
                | Inr b \<Rightarrow> (Inr (length s), put t1 p (File b))))
      | v \<Rightarrow> (Inl (TypeError (lit ''data must be str, not '' @ type_name v)), t))"

datatype read_error = UnicodeDecodeError | OpenError errno

definition Path_read_text :: "node \<Rightarrow> path \<Rightarrow> read_error + pystr" where
  "Path_read_text t p =
     (case walk t p of
        Inl e \<Rightarrow> Inl (OpenError e)
      | Inr (Dir _) \<Rightarrow> Inl (OpenError EISDIR)
      | Inr (File b) \<Rightarrow>
          (case utf8_decode b of
             None \<Rightarrow> Inl UnicodeDecodeError
           | Some s \<Rightarrow> Inr (universal_newlines s)))"

subsection \<open>The state of the world and the replies\<close>

text \<open>
  The state is the file tree and the trace of the \<^verbatim>\<open>pathlib\<close> calls made on it,
  oldest first. A reply is a list of \<^verbatim>\<open>TextContent\<close> items.
\<close>

datatype fs_call =
    Exists path
  | IsFile path
  | IsDir path
  | Stat path
  | ReadText path
  | Iterdir path
  | Mkdir path
  | WriteText path

record world =
  files :: node
  calls :: "fs_call list"

definition record_call :: "fs_call \<Rightarrow> world \<Rightarrow> world" where
  "record_call c w = w\<lparr>calls := calls w @ [c]\<rparr>"

datatype TextContent = TextContent (tc_type: pystr) (tc_text: pystr)

subsection \<open>The handlers\<close>

text \<open>\<^verbatim>\<open>_read_file\<close>\<close>

fun read_file :: "server \<Rightarrow> pyval \<Rightarrow> world \<Rightarrow> (exn + TextContent list) \<times> world" where
  "read_file srv (PyStr path) w =
     (case validate_path srv path of
        Inl e \<Rightarrow> (Inl e, w)
      | Inr file_path \<Rightarrow>
          (let w1 = record_call (Exists file_path) w in
           if \<not> Path_exists (files w) file_path
           then (Inl (FileNotFoundError (lit ''File not found: '' @ path)), w1)
           else
             (let w2 = record_call (IsFile file_path) w1 in
              if \<not> Path_is_file (files w) file_path
              then (Inl (ValueError (lit ''Not a file: '' @ path)), w2)
              else
                (let w3 = record_call (ReadText file_path) w2 in
                 case Path_read_text (files w) file_path of
                   Inr content \<Rightarrow> (Inr [TextContent (lit ''text'') content], w3)
                 | Inl UnicodeDecodeError \<Rightarrow>
                     (Inl (ValueError (lit ''File is not a text file: '' @ path)), w3)
                 | Inl (OpenError e) \<Rightarrow> (Inl (OSError e (Path_str file_path)), w3)))))"
| "read_file srv v w = (Inl (fspath_TypeError v), w)"

text \<open>
  \<^verbatim>\<open>_list_directory\<close>. The format \<^verbatim>\<open>{item_type:6}\<close> pads on the right to six
  characters, \<^verbatim>\<open>{size:>10}\<close> on the left to ten; \<^verbatim>\<open>sorted\<close> orders the paths
  by their components, each compared by code points.
\<close>

definition ljust :: "nat \<Rightarrow> pystr \<Rightarrow> pystr" where
  "ljust n s = s @ replicate (n - length s) 32"

definition rjust :: "nat \<Rightarrow> pystr \<Rightarrow> pystr" where
  "rjust n s = replicate (n - length s) 32 @ s"

fun join :: "pystr \<Rightarrow> pystr list \<Rightarrow> pystr" where
  "join sep [] = []"
| "join sep [x] = x"
| "join sep (x # y # ys) = x @ sep @ join sep (y # ys)"

definition entry_line :: "node \<Rightarrow> path \<Rightarrow> pystr" where
  "entry_line t item =
     (let item_type = (if Path_is_dir t item then lit ''DIR'' else lit ''FILE'');
          size = (if Path_is_file t item then file_size t item else 0)
      in ljust 6 item_type @ lit '' '' @ rjust 10 (decimal size) @ lit '' bytes  ''
         @ Path_name item)"

definition entry_calls :: "node \<Rightarrow> path \<Rightarrow> fs_call list" where
  "entry_calls t item =
     [IsDir item, IsFile item] @ (if Path_is_file t item then [Stat item] else [])"

fun list_directory :: "server \<Rightarrow> pyval \<Rightarrow> world \<Rightarrow> (exn + TextContent list) \<times> world" where
  "list_directory srv (PyStr path) w =
     (case validate_path srv path of
        Inl e \<Rightarrow> (Inl e, w)
      | Inr dir_path \<Rightarrow>
          (let w1 = record_call (Exists dir_path) w in
           if \<not> Path_exists (files w) dir_path
           then (Inl (FileNotFoundError (lit ''Directory not found: '' @ path)), w1)
           else
             (let w2 = record_call (IsDir dir_path) w1 in
              if \<not> Path_is_dir (files w) dir_path
              then (Inl (ValueError (lit ''Not a directory: '' @ path)), w2)
              else
                (let w3 = record_call (Iterdir dir_path) w2 in
                 case Path_iterdir (files w) dir_path of
                   Inl e \<Rightarrow> (Inl (OSError e (Path_str dir_path)), w3)
                 | Inr children \<Rightarrow>
                     (let items = map (entry_line (files w)) (sort children);
                          result = lit ''Contents of '' @ Path_str dir_path @ lit '':'' @ [10]
                                   @ join [10] items
                      in (Inr [TextContent (lit ''text'') result],
                          w3\<lparr>calls := calls w3
                                @ concat (map (entry_calls (files w)) (sort children))\<rparr>))))))"
| "list_directory srv v w = (Inl (fspath_TypeError v), w)"

text \<open>\<^verbatim>\<open>_write_file\<close>\<close>

fun write_file ::
  "server \<Rightarrow> pyval \<Rightarrow> pyval \<Rightarrow> world \<Rightarrow> (exn + TextContent list) \<times> world" where
  "write_file srv (PyStr path) content w =
     (case validate_path srv path of
        Inl e \<Rightarrow> (Inl e, w)
      | Inr file_path \<Rightarrow>
          (let w1 = record_call (Mkdir (Path_parent file_path)) w in
           case mkdir_parents (files w) (Path_parent file_path) of
             Inl (e, p) \<Rightarrow> (Inl (OSError e (Path_str p)), w1)
           | Inr t1 \<Rightarrow>
               (let w2 = record_call (WriteText file_path) (w1\<lparr>files := t1\<rparr>) in
                case Path_write_text t1 file_path content of
                  (Inl e, t2) \<Rightarrow> (Inl e, w2\<lparr>files := t2\<rparr>)
                | (Inr _, t2) \<Rightarrow>
                    (case py_len content of
                       Inl e \<Rightarrow> (Inl e, w2\<lparr>files := t2\<rparr>)
                     | Inr n \<Rightarrow>
                         (Inr [TextContent (lit ''text'')
                                 (lit ''Successfully wrote '' @ decimal n
                                  @ lit '' characters to '' @ Path_name file_path)],
                          w2\<lparr>files := t2\<rparr>)))))"
| "write_file srv v content w = (Inl (fspath_TypeError v), w)"

subsection \<open>The catalogue and the dispatcher\<close>

text \<open>
  \<^verbatim>\<open>list_tools\<close>: the name of each tool with the parameters its input schema
  declares (all of type string) and those it requires.
\<close>

record Tool =
  tool_name :: pystr
  input_properties :: "pystr list"
  input_required :: "pystr list"

definition list_tools :: "Tool list" where
  "list_tools =
     [\<lparr>tool_name = lit ''read_file'', input_properties = [lit ''path''],
       input_required = [lit ''path'']\<rparr>,
      \<lparr>tool_name = lit ''list_directory'', input_properties = [lit ''path''],
       input_required = [lit ''path'']\<rparr>,
      \<lparr>tool_name = lit ''write_file'', input_properties = [lit ''path'', lit ''content''],
       input_required = [lit ''path'', lit ''content'']\<rparr>]"

text \<open>\<^verbatim>\<open>arguments[key]\<close>\<close>

definition getitem :: "(pystr \<rightharpoonup> pyval) \<Rightarrow> pystr \<Rightarrow> exn + pyval" where
  "getitem d k = (case d k of None \<Rightarrow> Inl (KeyError k) | Some v \<Rightarrow> Inr v)"

text \<open>
  \<^verbatim>\<open>call_tool\<close>: \<open>call_tool_try\<close> is the body of its \<^verbatim>\<open>try\<close>, and \<open>call_tool\<close>
  adds the \<^verbatim>\<open>except Exception\<close> clause. The arguments of a call are evaluated
  from left to right before the handler runs.
\<close>

definition call_tool_try ::
  "server \<Rightarrow> pystr \<Rightarrow> (pystr \<rightharpoonup> pyval) \<Rightarrow> world \<Rightarrow> (exn + TextContent list) \<times> world" where
  "call_tool_try srv name arguments w =
     (if name = lit ''read_file'' then
        (case getitem arguments (lit ''path'') of
           Inl e \<Rightarrow> (Inl e, w)
         | Inr p \<Rightarrow> read_file srv p w)
      else if name = lit ''list_directory'' then
        (case getitem arguments (lit ''path'') of
           Inl e \<Rightarrow> (Inl e, w)
         | Inr p \<Rightarrow> list_directory srv p w)
      else if name = lit ''write_file'' then
        (case getitem arguments (lit ''path'') of
           Inl e \<Rightarrow> (Inl e, w)
         | Inr p \<Rightarrow>
             (case getitem arguments (lit ''content'') of
                Inl e \<Rightarrow> (Inl e, w)
              | Inr c \<Rightarrow> write_file srv p c w))
      else (Inl (ValueError (lit ''Unknown tool: '' @ name)), w))"

definition call_tool ::
  "server \<Rightarrow> pystr \<Rightarrow> (pystr \<rightharpoonup> pyval) \<Rightarrow> world \<Rightarrow> TextContent list \<times> world" where
  "call_tool srv name arguments w =
     (case call_tool_try srv name arguments w of
        (Inr result, w') \<Rightarrow> (result, w')
      | (Inl e, w') \<Rightarrow> ([TextContent (lit ''text'') (lit ''Error: '' @ exn_str e)], w'))"

section \<open>Properties\<close>

text \<open>
  The specification names its failures by codes; the code has none, and a failure is
  the text \<^verbatim>\<open>Error: \<close> followed by the message of the exception. The theorems
  read each code as the exception the code raises for it: \<^verbatim>\<open>ACCESS_DENIED\<close> is
  the \<open>ValueError\<close> of \<open>validate_path\<close>, \<^verbatim>\<open>NOT_FOUND\<close> the \<open>FileNotFoundError\<close>
  of a handler, \<^verbatim>\<open>NOT_A_FILE\<close>, \<^verbatim>\<open>NOT_A_DIRECTORY\<close> and \<^verbatim>\<open>DECODE_ERROR\<close>
  the handlers' \<open>ValueError\<close>s with their messages, \<^verbatim>\<open>UNKNOWN_OPERATION\<close> the
  \<open>ValueError\<close> of the dispatcher, and \<^verbatim>\<open>INVALID_ARGUMENTS\<close> the \<open>KeyError\<close> of a
  missing argument.
\<close>

subsection \<open>Path validation, characterised\<close>

lemma relative_to_prefix: "relative_to q r = None \<longleftrightarrow> \<not> prefix r q"
  by (auto simp: relative_to_def prefix_def dest: sym[of _ "take _ _"])
    (metis append_take_drop_id)

lemma validate_path_Inr:
  "validate_path srv p = Inr q \<longleftrightarrow> q = full_path srv p \<and> prefix (allowed_directory srv) q"
  using relative_to_prefix[of "full_path srv p" "allowed_directory srv"]
  by (auto simp: validate_path_def split: option.splits)


lemmas path_eval = validate_path_def full_path_def isabs_def realpath_def realpath_step_def
  relative_to_def Path_str_def lit_def

lemmas fs_eval = Path_exists_def Path_is_file_def Path_is_dir_def file_size_def Path_iterdir_def
  os_mkdir_def mkdir_exist_ok_def open_w_def Path_write_text_def Path_read_text_def
  record_call_def Path_parent_def Path_name_def utf8_encode_def first_surrogates_def
  surrogate_def utf8_char_def continuation_def universal_newlines_def getitem_def
  call_tool_try_def call_tool_def decimal.simps utf8_decode.simps mkdir_parents.simps
  ljust_def rjust_def entry_line_def entry_calls_def


subsection \<open>Walking and changing the file tree\<close>

lemma walk_append:
  "walk t (p @ r) = (case walk t p of Inl e \<Rightarrow> Inl e | Inr n \<Rightarrow> walk n r)"
  by (induction t p rule: walk.induct) (auto split: option.splits)

lemma walk_errors: "walk t p = Inl e \<Longrightarrow> e = ENOENT \<or> e = ENOTDIR"
  by (induction t p rule: walk.induct) (auto split: option.splits)

lemma walk_snoc_Dir:
  "walk t p = Inr (Dir es) \<Longrightarrow>
   walk t (p @ [c]) = (case map_of es c of None \<Rightarrow> Inl ENOENT | Some n \<Rightarrow> Inr n)"
  by (simp add: walk_append split: option.splits)

lemma walk_prefix_Dir:
  assumes "walk t (r @ s) = Inr x" "s \<noteq> []"
  shows "\<exists>es. walk t r = Inr (Dir es)"
proof (cases "walk t r")
  case (Inl e)
  with assms show ?thesis by (simp add: walk_append)
next
  case (Inr n)
  with assms show ?thesis
    by (cases n; cases s) (auto simp: walk_append)
qed

lemma walk_ENOTDIR:
  "walk t q = Inl ENOTDIR \<Longrightarrow> \<exists>k<length q. Path_is_file t (take k q)"
proof (induction t q rule: walk.induct)
  case (1 n)
  then show ?case by simp
next
  case (2 b c cs)
  have "Path_is_file (File b) (take 0 (c # cs))" by (simp add: Path_is_file_def)
  then show ?case by blast
next
  case (3 es c cs)
  then obtain n where n: "map_of es c = Some n" "walk n cs = Inl ENOTDIR"
    by (auto split: option.splits)
  with 3 obtain k where k: "k < length cs" "Path_is_file n (take k cs)" by blast
  with n have "Path_is_file (Dir es) (take (Suc k) (c # cs))"
    by (simp add: Path_is_file_def)
  with k show ?case by (metis Suc_less_eq length_Cons)
qed

lemma map_of_set_entry:
  "map_of (set_entry k v es) k' = (if k' = k then Some v else map_of es k')"
  by (induction es) auto

lemma walk_put_below:
  "p = [] \<or> (\<exists>es. walk t (butlast p) = Inr (Dir es)) \<Longrightarrow> walk (put t p n) (p @ r) = walk n r"
proof (induction t p n rule: put.induct)
  case (1 n new)
  then show ?case by simp
next
  case (2 b c cs new)
  then show ?case by (cases cs) auto
next
  case (3 es c cs new)
  show ?case
  proof (cases cs)
    case Nil
    then show ?thesis by (simp add: map_of_set_entry split: option.splits)
  next
    case (Cons d ds)
    with 3 show ?thesis
      by (auto simp: map_of_set_entry split: option.splits)
  qed
qed

lemma walk_put_other:
  "\<not> prefix p r \<Longrightarrow> \<not> prefix r p \<Longrightarrow> walk (put t p n) r = walk t r"
proof (induction t p n arbitrary: r rule: put.induct)
  case (1 n new)
  then show ?case by simp
next
  case (2 b c cs new)
  then show ?case by simp
next
  case (3 es c cs new)
  then obtain d ds where r: "r = d # ds" by (cases r) auto
  show ?case
  proof (cases "d = c")
    case True
    with 3 r show ?thesis
      by (auto simp: map_of_set_entry split: option.splits)
  next
    case False
    with r show ?thesis
      by (auto simp: map_of_set_entry split: option.splits)
  qed
qed


lemma put_frame:
  assumes parent: "p = [] \<or> (\<exists>es. walk t (butlast p) = Inr (Dir es))"
      and absent: "\<And>s. s \<noteq> [] \<Longrightarrow> walk t (p @ s) = walk n s"
      and r: "\<not> prefix r p"
  shows "walk (put t p n) r = walk t r"
proof (cases "prefix p r")
  case True
  then obtain s where s: "r = p @ s" by (auto simp: prefix_def)
  with r have "s \<noteq> []" by auto
  with s absent walk_put_below[OF parent, of n s] show ?thesis by simp
next
  case False
  with r show ?thesis by (simp add: walk_put_other)
qed

lemma os_mkdir_Inr:
  assumes "os_mkdir t p = Inr t'"
  shows "walk t' p = Inr (Dir []) \<and> (\<forall>r. \<not> prefix r p \<longrightarrow> walk t' r = walk t r)"
proof -
  from assms have ne: "p \<noteq> []" by (auto simp: os_mkdir_def split: if_splits)
  from assms ne obtain es where es: "walk t (butlast p) = Inr (Dir es)"
      "map_of es (last p) = None" and t': "t' = put t p (Dir [])"
    by (auto simp: os_mkdir_def split: sum.splits node.splits option.splits)
  have parent: "p = [] \<or> (\<exists>es. walk t (butlast p) = Inr (Dir es))" using es by blast
  have "walk t p = Inl ENOENT"
    using walk_snoc_Dir[OF es(1), of "last p"] es(2) ne by simp
  then have absent: "\<And>s. s \<noteq> [] \<Longrightarrow> walk t (p @ s) = walk (Dir []) s"
    by (case_tac s) (simp_all add: walk_append)
  have "walk t' p = Inr (Dir [])"
    using walk_put_below[OF parent, of "Dir []" "[]"] t' by simp
  moreover have "\<forall>r. \<not> prefix r p \<longrightarrow> walk t' r = walk t r"
    using put_frame[OF parent absent] t' by blast
  ultimately show ?thesis by blast
qed

lemma os_mkdir_ENOENT:
  "os_mkdir t p = Inl ENOENT \<Longrightarrow> p \<noteq> [] \<and> walk t (butlast p) = Inl ENOENT"
  by (auto simp: os_mkdir_def split: if_splits sum.splits node.splits option.splits)

lemma os_mkdir_Inl:
  assumes "os_mkdir t p = Inl e" "e \<noteq> ENOENT"
  shows "(\<exists>x. walk t p = Inr x) \<or> (\<exists>k<length p. Path_is_file t (take k p))"
proof (cases "p = []")
  case True
  then show ?thesis by simp
next
  case False
  show ?thesis
  proof (cases "walk t (butlast p)")
    case (Inl e')
    with assms False have "e' = ENOTDIR"
      using walk_errors[OF Inl] by (auto simp: os_mkdir_def)
    with Inl walk_ENOTDIR[of t "butlast p"] obtain k where
      "k < length (butlast p)" "Path_is_file t (take k (butlast p))" by blast
    then show ?thesis by (auto simp: take_butlast intro!: exI[of _ k])
  next
    case (Inr n)
    show ?thesis
    proof (cases n)
      case (File b)
      with Inr have "Path_is_file t (take (length p - 1) p)"
        by (simp add: Path_is_file_def butlast_conv_take)
      with False show ?thesis by (auto intro!: exI[of _ "length p - 1"])
    next
      case (Dir es)
      with Inr assms False obtain x where "map_of es (last p) = Some x"
        by (auto simp: os_mkdir_def split: option.splits)
      with walk_snoc_Dir[of t "butlast p" es "last p"] Inr Dir False show ?thesis by simp
    qed
  qed
qed

lemma walk_prefixes_dirs:
  assumes "walk t p = Inr x" "k < length p"
  shows "Path_is_dir t (take k p)"
proof -
  have "walk t (take k p @ drop k p) = Inr x" using assms by simp
  moreover have "drop k p \<noteq> []" using assms by simp
  ultimately obtain es where "walk t (take k p) = Inr (Dir es)"
    using walk_prefix_Dir by blast
  then show ?thesis by (simp add: Path_is_dir_def)
qed

lemma node_not_file: "\<not> Path_is_file t p \<Longrightarrow> walk t p = Inr x \<Longrightarrow> Path_is_dir t p"
  by (cases x) (auto simp: Path_is_file_def Path_is_dir_def)

lemma take_butlast_le: "k \<le> length (butlast p) \<Longrightarrow> take k (butlast p) = take k p"
proof (cases "p = []")
  case True
  then show ?thesis by simp
next
  case False
  assume "k \<le> length (butlast p)"
  with False have "k < length p" by (simp add: length_greater_0_conv[symmetric] del: length_greater_0_conv)
  then show ?thesis by (rule take_butlast)
qed

lemma Path_is_dir_iff: "Path_is_dir t p \<longleftrightarrow> (\<exists>es. walk t p = Inr (Dir es))"
  by (auto simp: Path_is_dir_def split: sum.splits node.splits)

lemma Path_is_file_iff: "Path_is_file t p \<longleftrightarrow> (\<exists>b. walk t p = Inr (File b))"
  by (auto simp: Path_is_file_def split: sum.splits node.splits)

lemma mkdir_parents_ok:
  assumes "\<forall>k\<le>length p. \<not> Path_is_file t (take k p)"
  shows "\<exists>t'. mkdir_parents t p = Inr t'
            \<and> (\<forall>k\<le>length p. Path_is_dir t' (take k p))
            \<and> (\<forall>r. \<not> prefix r p \<longrightarrow> walk t' r = walk t r)"
  using assms
proof (induction t p rule: mkdir_parents.induct)
  case (1 t p)
  have nofile: "\<not> Path_is_file t p" using "1.prems" by (metis order_refl take_all)
  have nofile': "\<not> (\<exists>k<length p. Path_is_file t (take k p))" using "1.prems" by auto
  show ?case
  proof (cases "os_mkdir t p")
    case (Inr t')
    from os_mkdir_Inr[OF Inr] have p: "walk t' p = Inr (Dir [])"
      and fr: "\<forall>r. \<not> prefix r p \<longrightarrow> walk t' r = walk t r" by blast+
    have "\<forall>k\<le>length p. Path_is_dir t' (take k p)"
    proof (intro allI impI)
      fix k assume "k \<le> length p"
      then show "Path_is_dir t' (take k p)"
        using walk_prefixes_dirs[OF p, of k] p
        by (cases "k = length p") (auto simp: Path_is_dir_def)
    qed
    with Inr fr show ?thesis by (subst mkdir_parents.simps) simp
  next
    case (Inl e)
    show ?thesis
    proof (cases "e = ENOENT")
      case False
      with os_mkdir_Inl[OF Inl False] nofile' obtain x where x: "walk t p = Inr x" by blast
      from node_not_file[OF nofile x] have d: "Path_is_dir t p" .
      have "\<forall>k\<le>length p. Path_is_dir t (take k p)"
      proof (intro allI impI)
        fix k assume "k \<le> length p"
        then show "Path_is_dir t (take k p)"
          using walk_prefixes_dirs[OF x, of k] d by (cases "k = length p") auto
      qed
      with Inl False d show ?thesis by (subst mkdir_parents.simps) simp
    next
      case True
      with Inl os_mkdir_ENOENT[of t p] have ne: "p \<noteq> []"
        and up: "walk t (butlast p) = Inl ENOENT" by auto
      have pre: "\<forall>k\<le>length (butlast p). \<not> Path_is_file t (take k (butlast p))"
        using "1.prems" by (auto simp: take_butlast_le)
      from "1.IH"[OF Inl True ne pre] obtain t1 where
        t1: "mkdir_parents t (butlast p) = Inr t1"
        and d1: "\<forall>k\<le>length (butlast p). Path_is_dir t1 (take k (butlast p))"
        and f1: "\<forall>r. \<not> prefix r (butlast p) \<longrightarrow> walk t1 r = walk t r" by blast
      from d1 obtain es where es: "walk t1 (butlast p) = Inr (Dir es)"
        using Path_is_dir_iff[of t1 "butlast p"] by (auto dest!: spec[of _ "length (butlast p)"])
      have np: "\<not> prefix p (butlast p)" using ne
        by (metis append_butlast_last_id prefix_order.dual_order.antisym prefixI same_append_eq snoc_eq_iff_butlast self_append_conv)
      have "walk t p = Inl ENOENT"
        using up walk_append[of t "butlast p" "[last p]"] ne by simp
      with f1 np have "walk t1 p = Inl ENOENT" by simp
      with walk_snoc_Dir[OF es, of "last p"] ne have "map_of es (last p) = None"
        by (auto split: option.splits)
      with es ne have mk: "os_mkdir t1 p = Inr (put t1 p (Dir []))"
        by (simp add: os_mkdir_def)
      from os_mkdir_Inr[OF mk] have p: "walk (put t1 p (Dir [])) p = Inr (Dir [])"
        and fr: "\<forall>r. \<not> prefix r p \<longrightarrow> walk (put t1 p (Dir [])) r = walk t1 r" by blast+
      have dirs: "\<forall>k\<le>length p. Path_is_dir (put t1 p (Dir [])) (take k p)"
      proof (intro allI impI)
        fix k assume "k \<le> length p"
        then show "Path_is_dir (put t1 p (Dir [])) (take k p)"
          using walk_prefixes_dirs[OF p, of k] p
          by (cases "k = length p") (auto simp: Path_is_dir_def)
      qed
      have frame: "\<forall>r. \<not> prefix r p \<longrightarrow> walk (put t1 p (Dir [])) r = walk t r"
      proof (intro allI impI)
        fix r assume r: "\<not> prefix r p"
        then have "\<not> prefix r (butlast p)"
          by (metis append_butlast_last_id ne prefix_order.trans prefixI)
        with f1 fr r show "walk (put t1 p (Dir [])) r = walk t r" by simp
      qed
      from Inl True ne t1 mk dirs frame show ?thesis
        by (subst mkdir_parents.simps) (simp add: mkdir_exist_ok_def)
    qed
  qed
qed

subsection \<open>UTF-8: decoding what was encoded\<close>

lemma split2: "(x::nat) div 64 * 4096 + x mod 64 * 64 = x * 64"
proof -
  define a where "a = x div 64"
  define b where "b = x mod 64"
  have "x = a * 64 + b" by (simp add: a_def b_def)
  then show ?thesis unfolding a_def[symmetric] b_def[symmetric] by simp
qed

lemma split3: "(c::nat) div 4096 * 4096 + c div 64 mod 64 * 64 + c mod 64 = c"
proof -
  have a: "c div 4096 = c div 64 div 64" by (simp add: div_mult2_eq[symmetric])
  show ?thesis unfolding a using split2[of "c div 64"] by simp
qed

lemma split4: "(c::nat) div 262144 * 262144 + c div 4096 mod 64 * 4096 + c div 64 mod 64 * 64 + c mod 64 = c"
proof -
  define a where "a = c div 4096 div 64"
  define b where "b = c div 4096 mod 64"
  have a': "c div 262144 = a" by (simp add: a_def div_mult2_eq[symmetric])
  have "c div 4096 = a * 64 + b" by (simp add: a_def b_def)
  then have "a * 262144 + b * 4096 = c div 4096 * 4096" by simp
  then show ?thesis unfolding a' b_def[symmetric] using split3[of c] by simp
qed

lemma bound3: "(c::nat) < 0x10000 \<Longrightarrow> c div 4096 < 16" by simp
lemma bound4: "(c::nat) < 0x110000 \<Longrightarrow> c div 262144 < 5" by simp


lemma utf8_next_2:
  "a < 32 \<Longrightarrow> b < 64 \<Longrightarrow> 0x80 \<le> a * 64 + b \<Longrightarrow>
   utf8_next ((0xC0 + a) # (0x80 + b) # bs) = Some (a * 64 + b, bs)"
  by (simp add: continuation_def)

lemma utf8_next_3:
  "a < 16 \<Longrightarrow> b < 64 \<Longrightarrow> d < 64 \<Longrightarrow> 0x800 \<le> a * 4096 + b * 64 + d \<Longrightarrow>
   \<not> surrogate (a * 4096 + b * 64 + d) \<Longrightarrow>
   utf8_next ((0xE0 + a) # (0x80 + b) # (0x80 + d) # bs) = Some (a * 4096 + b * 64 + d, bs)"
  by (simp add: continuation_def)

lemma utf8_next_4:
  "a < 8 \<Longrightarrow> b < 64 \<Longrightarrow> d < 64 \<Longrightarrow> e < 64 \<Longrightarrow>
   0x10000 \<le> a * 262144 + b * 4096 + d * 64 + e \<Longrightarrow>
   a * 262144 + b * 4096 + d * 64 + e < 0x110000 \<Longrightarrow>
   utf8_next ((0xF0 + a) # (0x80 + b) # (0x80 + d) # (0x80 + e) # bs)
     = Some (a * 262144 + b * 4096 + d * 64 + e, bs)"
  by (simp add: continuation_def)

lemma utf8_next_char:
  assumes "c < 0x110000" "\<not> surrogate c"
  shows "utf8_next (utf8_char c @ bs) = Some (c, bs)"
proof -
  consider "c < 0x80" | "0x80 \<le> c" "c < 0x800" | "0x800 \<le> c" "c < 0x10000"
    | "0x10000 \<le> c" "c < 0x110000"
    using assms by linarith
  then show ?thesis
  proof cases
    case 1
    then show ?thesis by (simp add: utf8_char_def)
  next
    case 2
    have "utf8_next ((0xC0 + c div 64) # (0x80 + c mod 64) # bs)
            = Some (c div 64 * 64 + c mod 64, bs)"
      using 2 by (intro utf8_next_2) simp_all
    with 2 show ?thesis by (simp add: utf8_char_def)
  next
    case 3
    have "utf8_next ((0xE0 + c div 4096) # (0x80 + c div 64 mod 64) # (0x80 + c mod 64) # bs)
            = Some (c div 4096 * 4096 + c div 64 mod 64 * 64 + c mod 64, bs)"
      using 3 assms(2) by (intro utf8_next_3) (simp_all add: split3)
    with 3 show ?thesis by (simp add: utf8_char_def split3)
  next
    case 4
    have "utf8_next ((0xF0 + c div 262144) # (0x80 + c div 4096 mod 64)
                     # (0x80 + c div 64 mod 64) # (0x80 + c mod 64) # bs)
            = Some (c div 262144 * 262144 + c div 4096 mod 64 * 4096 + c div 64 mod 64 * 64
                    + c mod 64, bs)"
      using 4 by (intro utf8_next_4) (simp_all add: split4)
    with 4 show ?thesis by (simp add: utf8_char_def split4)
  qed
qed

lemma utf8_char_nonempty: "utf8_char c \<noteq> []"
  by (simp add: utf8_char_def)

lemma utf8_decode_encode:
  "\<forall>c\<in>set s. c < 0x110000 \<and> \<not> surrogate c \<Longrightarrow> utf8_decode (concat (map utf8_char s)) = Some s"
proof (induction s)
  case Nil
  then show ?case by (simp add: utf8_decode.simps)
next
  case (Cons c s)
  then have "utf8_next (utf8_char c @ concat (map utf8_char s)) = Some (c, concat (map utf8_char s))"
    by (simp add: utf8_next_char)
  with Cons show ?case
    by (subst utf8_decode.simps) (simp add: utf8_char_nonempty)
qed

lemma first_surrogates_None: "first_surrogates s = None \<longleftrightarrow> (\<forall>c\<in>set s. \<not> surrogate c)"
proof -
  have "length (takeWhile (\<lambda>c. \<not> surrogate c) s) = length s \<longleftrightarrow> takeWhile (\<lambda>c. \<not> surrogate c) s = s"
    by (metis takeWhile_dropWhile_id append_self_conv length_append add_cancel_right_right length_0_conv)
  then show ?thesis
    by (auto simp: first_surrogates_def Let_def takeWhile_eq_all_conv)
qed

lemma utf8_encode_Inr: "utf8_encode s = Inr b \<longleftrightarrow> (\<forall>c\<in>set s. \<not> surrogate c) \<and> b = concat (map utf8_char s)"
  using first_surrogates_None[of s]
  by (auto simp: utf8_encode_def split: option.splits)

lemma translate_newlines_no_cr: "13 \<notin> set s \<Longrightarrow> translate_newlines False s = s"
  by (induction s) auto

subsection \<open>What the handlers compute\<close>

lemma not_prefix_butlast: "q \<noteq> [] \<Longrightarrow> \<not> prefix q (butlast q)"
  by (auto dest!: prefix_length_le simp: length_greater_0_conv[symmetric] simp del: length_greater_0_conv)

lemma put_twice_file:
  assumes "q \<noteq> []" "walk t (butlast q) = Inr (Dir es)"
  shows "walk (put (put t q x) q y) q = Inr y
       \<and> (\<forall>k<length q. Path_is_dir (put (put t q x) q y) (take k q))"
proof -
  have p1: "q = [] \<or> (\<exists>es. walk t (butlast q) = Inr (Dir es))" using assms by blast
  have w1: "walk (put t q x) q = Inr x" using walk_put_below[OF p1, of x "[]"] by simp
  have "Path_is_dir (put t q x) (take (length q - 1) q)"
    using walk_prefixes_dirs[OF w1, of "length q - 1"] assms(1) by simp
  then have p2: "q = [] \<or> (\<exists>es. walk (put t q x) (butlast q) = Inr (Dir es))"
    by (simp add: Path_is_dir_iff butlast_conv_take)
  have w2: "walk (put (put t q x) q y) q = Inr y"
    using walk_put_below[OF p2, of y "[]"] by simp
  with walk_prefixes_dirs[OF w2] show ?thesis by blast
qed

lemma open_w_Inr:
  "open_w t q = Inr t' \<longleftrightarrow>
     q \<noteq> [] \<and> (\<exists>es. walk t (butlast q) = Inr (Dir es)) \<and> \<not> Path_is_dir t q
     \<and> t' = put t q (File [])"
proof (cases "q = []")
  case True
  then show ?thesis by (simp add: open_w_def)
next
  case False
  show ?thesis
  proof (cases "walk t (butlast q)")
    case (Inl e)
    with False show ?thesis by (simp add: open_w_def)
  next
    case (Inr n)
    show ?thesis
    proof (cases n)
      case (File b)
      with Inr False show ?thesis by (simp add: open_w_def)
    next
      case (Dir es)
      with Inr have "walk t (butlast q @ [last q])
          = (case map_of es (last q) of None \<Rightarrow> Inl ENOENT | Some n \<Rightarrow> Inr n)"
        by (simp add: walk_snoc_Dir)
      with False have "walk t q
          = (case map_of es (last q) of None \<Rightarrow> Inl ENOENT | Some n \<Rightarrow> Inr n)" by simp
      with Inr Dir False show ?thesis
        by (auto simp: open_w_def Path_is_dir_def split: option.splits node.splits)
    qed
  qed
qed

lemma write_text_Inr:
  "Path_write_text t q (PyStr s) = (Inr n, t2) \<longleftrightarrow>
     q \<noteq> [] \<and> (\<exists>es. walk t (butlast q) = Inr (Dir es)) \<and> \<not> Path_is_dir t q
     \<and> (\<forall>c\<in>set s. \<not> surrogate c) \<and> n = length s
     \<and> t2 = put (put t q (File [])) q (File (concat (map utf8_char s)))"
proof (cases "open_w t q")
  case (Inl e)
  with open_w_Inr[of t q] show ?thesis by (auto simp: Path_write_text_def)
next
  case (Inr t1)
  show ?thesis
  proof (cases "utf8_encode s")
    case (Inl e)
    with utf8_encode_Inr[of s] have "\<not> (\<forall>c\<in>set s. \<not> surrogate c)" by auto
    with Inl Inr show ?thesis by (auto simp: Path_write_text_def)
  next
    case enc: (Inr b)
    with utf8_encode_Inr[of s b] Inr open_w_Inr[of t q t1] show ?thesis
      by (auto simp: Path_write_text_def)
  qed
qed

lemma read_file_result:
  assumes "validate_path srv p = Inr q"
  shows "fst (read_file srv (PyStr p) w) =
     (case walk (files w) q of
        Inl e \<Rightarrow> Inl (FileNotFoundError (lit ''File not found: '' @ p))
      | Inr (Dir es) \<Rightarrow> Inl (ValueError (lit ''Not a file: '' @ p))
      | Inr (File b) \<Rightarrow>
          (case utf8_decode b of
             None \<Rightarrow> Inl (ValueError (lit ''File is not a text file: '' @ p))
           | Some s \<Rightarrow> Inr [TextContent (lit ''text'') (universal_newlines s)]))"
    and "files (snd (read_file srv (PyStr p) w)) = files w"
  using assms
  by (auto simp: Path_exists_def Path_is_dir_def Path_is_file_def Path_read_text_def
      Let_def record_call_def split: sum.splits node.splits option.splits)

lemma write_file_Inr:
  assumes "write_file srv (PyStr p) (PyStr s) w = (Inr r, w')"
  shows "\<exists>q t1. validate_path srv p = Inr q
           \<and> mkdir_parents (files w) (butlast q) = Inr t1
           \<and> Path_write_text t1 q (PyStr s) = (Inr (length s), files w')"
proof (cases "validate_path srv p")
  case (Inl e)
  with assms show ?thesis by simp
next
  case (Inr q)
  show ?thesis
  proof (cases "mkdir_parents (files w) (butlast q)")
    case (Inl x)
    with assms Inr show ?thesis by (cases x) (simp add: Let_def Path_parent_def)
  next
    case mk: (Inr t1)
    obtain res t2 where wt: "Path_write_text t1 q (PyStr s) = (res, t2)"
      by (cases "Path_write_text t1 q (PyStr s)")
    show ?thesis
    proof (cases res)
      case (Inl e)
      with assms Inr mk wt show ?thesis by (simp add: Let_def Path_parent_def)
    next
      case wr: (Inr n)
      with wt write_text_Inr[of t1 q s n t2] have "n = length s" by simp
      with assms Inr mk wt wr show ?thesis
        by (auto simp: Let_def Path_parent_def record_call_def)
    qed
  qed
qed

lemma snoc_le_snoc: "(q @ [a] \<le> q @ [b]) \<longleftrightarrow> a \<le> (b :: 'a :: linorder)"
  by (induction q) (auto simp: less_eq_list_code  Cons_le_Cons)

lemma sort_map_snoc: "sort (map (\<lambda>n. q @ [n]) (ns :: pystr list)) = map (\<lambda>n. q @ [n]) (sort ns)"
proof (rule properties_for_sort)
  show "mset (map (\<lambda>n. q @ [n]) (sort ns)) = mset (map (\<lambda>n. q @ [n]) ns)" by simp
  have "sorted (sort ns)" by simp
  then show "sorted (map (\<lambda>n. q @ [n]) (sort ns))"
    by (simp add: sorted_map sorted_wrt_iff_nth_less snoc_le_snoc sorted_iff_nth_mono)
qed

lemma sort_map_fst: "sort (map fst es) = map fst (sort_key fst es)"
  by (rule properties_for_sort) simp_all


lemma entry_line_child:
  assumes "walk t q = Inr (Dir es)" "map_of es n = Some x"
  shows "entry_line t (q @ [n])
       = ljust 6 (case x of Dir _ \<Rightarrow> lit ''DIR'' | File _ \<Rightarrow> lit ''FILE'') @ lit '' ''
         @ rjust 10 (decimal (case x of File b \<Rightarrow> length b | Dir _ \<Rightarrow> 0))
         @ lit '' bytes  '' @ n"
proof -
  from assms have "walk t (q @ [n]) = Inr x" by (simp add: walk_snoc_Dir)
  then show ?thesis
    by (cases x)
      (simp_all add: entry_line_def Path_is_dir_def Path_is_file_def file_size_def Path_name_def)
qed

lemma listing_lines:
  assumes "walk t q = Inr (Dir es)" "distinct (map fst es)"
  shows "map (entry_line t) (sort (map (\<lambda>(n, _). q @ [n]) es))
       = map (\<lambda>(n, x). ljust 6 (case x of Dir _ \<Rightarrow> lit ''DIR'' | File _ \<Rightarrow> lit ''FILE'')
                @ lit '' '' @ rjust 10 (decimal (case x of File b \<Rightarrow> length b | Dir _ \<Rightarrow> 0))
                @ lit '' bytes  '' @ n) (sort_key fst es)"
proof -
  have e1: "map (\<lambda>(n, _). q @ [n]) es = map (\<lambda>n. q @ [n]) (map fst es)"
    by (simp add: case_prod_unfold)
  have e2: "sort (map (\<lambda>n. q @ [n]) (map fst es))
      = map (\<lambda>n. q @ [n]) (map fst (sort_key fst es))"
    by (simp only: sort_map_snoc sort_map_fst)
  have "sort (map (\<lambda>(n, _). q @ [n]) es) = map (\<lambda>e. q @ [fst e]) (sort_key fst es)"
    unfolding e1 e2 by (simp only: map_map comp_def)
  moreover have "\<And>e. e \<in> set (sort_key fst es) \<Longrightarrow>
      entry_line t (q @ [fst e])
        = (case e of (n, x) \<Rightarrow>
             ljust 6 (case x of Dir _ \<Rightarrow> lit ''DIR'' | File _ \<Rightarrow> lit ''FILE'')
             @ lit '' '' @ rjust 10 (decimal (case x of File b \<Rightarrow> length b | Dir _ \<Rightarrow> 0))
             @ lit '' bytes  '' @ n)"
  proof -
    fix e assume "e \<in> set (sort_key fst es)"
    then have "e \<in> set es" by simp
    with assms(2) have "map_of es (fst e) = Some (snd e)" by simp
    from entry_line_child[OF assms(1) this] show "?thesis e" by (simp add: case_prod_unfold)
  qed
  ultimately show ?thesis by (simp cong: map_cong)
qed

lemma list_directory_result:
  assumes "validate_path srv p = Inr q"
  shows "fst (list_directory srv (PyStr p) w) =
     (case walk (files w) q of
        Inl e \<Rightarrow> Inl (FileNotFoundError (lit ''Directory not found: '' @ p))
      | Inr (File b) \<Rightarrow> Inl (ValueError (lit ''Not a directory: '' @ p))
      | Inr (Dir es) \<Rightarrow>
          Inr [TextContent (lit ''text'')
                 (lit ''Contents of '' @ Path_str q @ lit '':'' @ [10]
                  @ join [10] (map (entry_line (files w))
                                 (sort (map (\<lambda>(n, _). q @ [n]) es))))])"
    and "files (snd (list_directory srv (PyStr p) w)) = files w"
proof -
  show "fst (list_directory srv (PyStr p) w) =
     (case walk (files w) q of
        Inl e \<Rightarrow> Inl (FileNotFoundError (lit ''Directory not found: '' @ p))
      | Inr (File b) \<Rightarrow> Inl (ValueError (lit ''Not a directory: '' @ p))
      | Inr (Dir es) \<Rightarrow>
          Inr [TextContent (lit ''text'')
                 (lit ''Contents of '' @ Path_str q @ lit '':'' @ [10]
                  @ join [10] (map (entry_line (files w))
                                 (sort (map (\<lambda>(n, _). q @ [n]) es))))])"
  proof (cases "walk (files w) q")
    case (Inl e)
    with assms show ?thesis by (simp add: Path_exists_def Let_def)
  next
    case (Inr n)
    with assms show ?thesis
      by (cases n)
        (simp_all add: Path_exists_def Path_is_dir_def Path_iterdir_def Let_def)
  qed
  show "files (snd (list_directory srv (PyStr p) w)) = files w"
  proof (cases "walk (files w) q")
    case (Inl e)
    with assms show ?thesis by (simp add: Path_exists_def Let_def record_call_def)
  next
    case (Inr n)
    with assms show ?thesis
      by (cases n)
        (simp_all add: Path_exists_def Path_is_dir_def Path_iterdir_def Let_def record_call_def)
  qed
qed

subsection \<open>Every handler returns one text item\<close>

lemma read_file_single:
  "read_file srv p w = (Inr r, w') \<Longrightarrow> \<exists>x. r = [TextContent (lit ''text'') x]"
  by (cases p) (auto simp: Let_def split: sum.splits if_splits read_error.splits)

lemma list_directory_single:
  assumes "list_directory srv p w = (Inr r, w')"
  shows "\<exists>x. r = [TextContent (lit ''text'') x]"
proof (cases p)
  case (PyStr s)
  show ?thesis
  proof (cases "validate_path srv s")
    case (Inl e)
    with assms PyStr show ?thesis by simp
  next
    case (Inr q)
    show ?thesis
    proof (cases "Path_iterdir (files w) q")
      case (Inl e)
      with assms PyStr Inr show ?thesis by (simp add: Let_def split: if_split_asm)
    next
      case it: (Inr cs)
      with assms PyStr Inr show ?thesis by (simp add: Let_def split: if_split_asm) blast
    qed
  qed
qed (use assms in simp_all)

lemma write_file_single:
  assumes "write_file srv p c w = (Inr r, w')"
  shows "\<exists>x. r = [TextContent (lit ''text'') x]"
proof (cases p)
  case (PyStr s)
  show ?thesis
  proof (cases "validate_path srv s")
    case (Inl e)
    with assms PyStr show ?thesis by simp
  next
    case (Inr q)
    show ?thesis
    proof (cases "mkdir_parents (files w) (Path_parent q)")
      case (Inl x)
      with assms PyStr Inr show ?thesis by (cases x) (simp add: Let_def)
    next
      case mk: (Inr t1)
      obtain res t2 where wt: "Path_write_text t1 q c = (res, t2)"
        by (cases "Path_write_text t1 q c")
      show ?thesis
      proof (cases res)
        case (Inl e)
        with assms PyStr Inr mk wt show ?thesis by (simp add: Let_def)
      next
        case wr: (Inr n)
        show ?thesis
        proof (cases "py_len c")
          case (Inl e)
          with assms PyStr Inr mk wt wr show ?thesis by (simp add: Let_def)
        next
          case (Inr m)
          with assms PyStr \<open>validate_path srv s = Inr q\<close> mk wt wr show ?thesis
            by (simp add: Let_def) blast
        qed
      qed
    qed
  qed
qed (use assms in simp_all)

lemma call_tool_try_single:
  "call_tool_try srv name arguments w = (Inr r, w') \<Longrightarrow>
   \<exists>x. r = [TextContent (lit ''text'') x]"
  by (auto simp: call_tool_try_def split: if_splits sum.splits
      dest: read_file_single list_directory_single write_file_single)


lemma call_tool_returned:
  "call_tool_try srv name arguments w = (Inr r, w') \<Longrightarrow>
   call_tool srv name arguments w = (r, w')"
  by (simp add: call_tool_def)





subsection \<open>The sandbox boundary\<close>



subsection \<open>What a refusal tells the caller\<close>




subsection \<open>One reply for every request\<close>

text \<open>
  Claim C2. For every operation name and argument mapping the dispatcher returns
  exactly one item; and whenever the body of its \<^verbatim>\<open>try\<close> raises an exception
  \<open>e\<close>, of whatever kind, that item is the failure text built from \<open>e\<close>, returned as
  an ordinary reply with the state the handler left. \<open>call_tool\<close> has no other
  outcome: it is a total function into replies.
\<close>

theorem one_result_per_request:
  "length (fst (call_tool srv name arguments w)) = 1
   \<and> (\<forall>e w'. call_tool_try srv name arguments w = (Inl e, w') \<longrightarrow>
        call_tool srv name arguments w
          = ([TextContent (lit ''text'') (lit ''Error: '' @ exn_str e)], w'))"
proof (cases "call_tool_try srv name arguments w")
  case (Pair res w')
  show ?thesis
  proof (cases res)
    case (Inl e)
    with Pair show ?thesis by (simp add: call_tool_def)
  next
    case (Inr r)
    with Pair call_tool_try_single[of srv name arguments w r w'] show ?thesis
      by (auto simp: call_tool_def)
  qed
qed

theorem one_result_per_request_witness:
  "call_tool_try \<lparr>allowed_directory = [lit ''data'']\<rparr> (lit ''read_file'')
       (Map.empty(lit ''path'' \<mapsto> PyStr (lit ''../etc/passwd'')))
       \<lparr>files = Dir [(lit ''data'', Dir [])], calls = []\<rparr>
     = (Inl (ValueError
          (lit ''Access denied: ../etc/passwd is outside allowed directory /data'')),
        \<lparr>files = Dir [(lit ''data'', Dir [])], calls = []\<rparr>)
   \<and> call_tool \<lparr>allowed_directory = [lit ''data'']\<rparr> (lit ''read_file'')
       (Map.empty(lit ''path'' \<mapsto> PyStr (lit ''../etc/passwd'')))
       \<lparr>files = Dir [(lit ''data'', Dir [])], calls = []\<rparr>
     = ([TextContent (lit ''text'')
           (lit ''Error: Access denied: ../etc/passwd is outside allowed directory /data'')],
        \<lparr>files = Dir [(lit ''data'', Dir [])], calls = []\<rparr>)"
proof -
  have t: "call_tool_try \<lparr>allowed_directory = [lit ''data'']\<rparr> (lit ''read_file'')
       (Map.empty(lit ''path'' \<mapsto> PyStr (lit ''../etc/passwd'')))
       \<lparr>files = Dir [(lit ''data'', Dir [])], calls = []\<rparr>
     = (Inl (ValueError
          (lit ''Access denied: ../etc/passwd is outside allowed directory /data'')),
        \<lparr>files = Dir [(lit ''data'', Dir [])], calls = []\<rparr>)"
    by (simp add: call_tool_try_def getitem_def path_eval)
  show ?thesis
    using t
      one_result_per_request [of "\<lparr>allowed_directory = [lit ''data'']\<rparr>" "lit ''read_file''"
        "Map.empty(lit ''path'' \<mapsto> PyStr (lit ''../etc/passwd''))"
        "\<lparr>files = Dir [(lit ''data'', Dir [])], calls = []\<rparr>"]
    by (simp add: lit_def)
qed

subsection \<open>Failures travel in the reply\<close>



subsection \<open>Missing and ill-typed arguments\<close>




subsection \<open>Reading a file\<close>

text \<open>
  Claim C4, as stated, fails in its last case: the payload is not always the content
  of the file. The file is read in text mode with universal newlines, so the
  well-formed text \<^verbatim>\<open>a\<close>, carriage return, line feed, \<^verbatim>\<open>b\<close> comes back
  without its carriage return.
\<close>

theorem read_file_translates_newlines:
  "utf8_decode [97, 13, 10, 98] = Some [97, 13, 10, 98]
   \<and> fst (read_file \<lparr>allowed_directory = [lit ''data'']\<rparr> (PyStr (lit ''a.txt''))
        \<lparr>files = Dir [(lit ''data'', Dir [(lit ''a.txt'', File [97, 13, 10, 98])])],
         calls = []\<rparr>)
     = Inr [TextContent (lit ''text'') [97, 10, 98]]"
  by (simp add: path_eval fs_eval Let_def)

text \<open>
  Claim C4, amended. For a path that validation accepts as \<open>q\<close>: if nothing exists at
  \<open>q\<close> the call fails with \<^verbatim>\<open>File not found\<close>; if \<open>q\<close> is a directory, with
  \<^verbatim>\<open>Not a file\<close>; if \<open>q\<close> is a file whose bytes are no well-formed UTF-8, with
  \<^verbatim>\<open>File is not a text file\<close>; otherwise the payload is the decoded text of the
  whole file with every carriage return, alone or before a line feed, turned into
  one line feed. For a text without carriage returns that is the text itself. The
  file tree is not changed.
\<close>

theorem read_file_outcomes:
  assumes "validate_path srv p = Inr q"
  shows "(\<not> Path_exists (files w) q \<longrightarrow>
            fst (read_file srv (PyStr p) w)
              = Inl (FileNotFoundError (lit ''File not found: '' @ p)))
       \<and> (Path_is_dir (files w) q \<longrightarrow>
            fst (read_file srv (PyStr p) w) = Inl (ValueError (lit ''Not a file: '' @ p)))
       \<and> (\<forall>b. walk (files w) q = Inr (File b) \<longrightarrow>
            (utf8_decode b = None \<longrightarrow>
               fst (read_file srv (PyStr p) w)
                 = Inl (ValueError (lit ''File is not a text file: '' @ p)))
          \<and> (\<forall>s. utf8_decode b = Some s \<longrightarrow>
               fst (read_file srv (PyStr p) w)
                 = Inr [TextContent (lit ''text'') (universal_newlines s)]
             \<and> (13 \<notin> set s \<longrightarrow>
                  fst (read_file srv (PyStr p) w) = Inr [TextContent (lit ''text'') s])))
       \<and> files (snd (read_file srv (PyStr p) w)) = files w"
proof (cases "walk (files w) q")
  case (Inl e)
  with assms show ?thesis
    by (simp add: Path_exists_def Path_is_dir_def Let_def record_call_def)
next
  case (Inr n)
  show ?thesis
  proof (cases n)
    case (Dir es)
    with Inr assms show ?thesis
      by (simp add: Path_exists_def Path_is_dir_def Path_is_file_def Let_def record_call_def)
  next
    case (File b)
    show ?thesis
    proof (cases "utf8_decode b")
      case None
      with File Inr assms show ?thesis
        by (simp add: Path_exists_def Path_is_dir_def Path_is_file_def Path_read_text_def
            Let_def record_call_def)
    next
      case (Some s)
      with File Inr assms show ?thesis
        by (simp add: Path_exists_def Path_is_dir_def Path_is_file_def Path_read_text_def
            Let_def record_call_def universal_newlines_def translate_newlines_no_cr)
    qed
  qed
qed

theorem read_file_outcomes_witness:
  "validate_path \<lparr>allowed_directory = [lit ''data'']\<rparr> (lit ''a.txt'')
     = Inr [lit ''data'', lit ''a.txt'']
   \<and> fst (read_file \<lparr>allowed_directory = [lit ''data'']\<rparr> (PyStr (lit ''a.txt''))
        \<lparr>files = Dir [(lit ''data'', Dir [])], calls = []\<rparr>)
     = Inl (FileNotFoundError (lit ''File not found: a.txt''))
   \<and> fst (read_file \<lparr>allowed_directory = [lit ''data'']\<rparr> (PyStr (lit ''a.txt''))
        \<lparr>files = Dir [(lit ''data'', Dir [(lit ''a.txt'', Dir [])])], calls = []\<rparr>)
     = Inl (ValueError (lit ''Not a file: a.txt''))
   \<and> fst (read_file \<lparr>allowed_directory = [lit ''data'']\<rparr> (PyStr (lit ''a.txt''))
        \<lparr>files = Dir [(lit ''data'', Dir [(lit ''a.txt'', File [0xC3, 0x28])])], calls = []\<rparr>)
     = Inl (ValueError (lit ''File is not a text file: a.txt''))
   \<and> fst (read_file \<lparr>allowed_directory = [lit ''data'']\<rparr> (PyStr (lit ''a.txt''))
        \<lparr>files = Dir [(lit ''data'', Dir [(lit ''a.txt'', File [0x68, 0xC3, 0xA9, 0x0A])])],
         calls = []\<rparr>)
     = Inr [TextContent (lit ''text'') [0x68, 0xE9, 0x0A]]"
proof -
  have v: "validate_path \<lparr>allowed_directory = [lit ''data'']\<rparr> (lit ''a.txt'')
     = Inr [lit ''data'', lit ''a.txt'']"
    by (simp add: path_eval)
  show ?thesis
    using v
      read_file_outcomes [OF v, of "\<lparr>files = Dir [(lit ''data'', Dir [])], calls = []\<rparr>"]
      read_file_outcomes [OF v,
        of "\<lparr>files = Dir [(lit ''data'', Dir [(lit ''a.txt'', Dir [])])], calls = []\<rparr>"]
      read_file_outcomes [OF v,
        of "\<lparr>files = Dir [(lit ''data'', Dir [(lit ''a.txt'', File [0xC3, 0x28])])],
            calls = []\<rparr>"]
      read_file_outcomes [OF v,
        of "\<lparr>files = Dir [(lit ''data'', Dir [(lit ''a.txt'', File [0x68, 0xC3, 0xA9, 0x0A])])],
            calls = []\<rparr>"]
    by (simp add: fs_eval lit_def)
qed

subsection \<open>Listing a directory\<close>

text \<open>
  Claim C6. For a path that validation accepts as \<open>q\<close>: if nothing exists at \<open>q\<close> the
  call fails with \<^verbatim>\<open>Directory not found\<close>; if \<open>q\<close> is a regular file, with
  \<^verbatim>\<open>Not a directory\<close>; if \<open>q\<close> is a directory with the entries \<open>es\<close> (each name
  once), the payload is the header \<^verbatim>\<open>Contents of <q>:\<close> and then one line for each
  entry, the entries ordered by name (lists of code points, compared
  lexicographically): the kind \<^verbatim>\<open>FILE\<close> or \<^verbatim>\<open>DIR\<close>, the size in bytes of a file
  and 0 for a directory, and the name. The lines are those of the entries of \<open>es\<close>,
  no more and no fewer, and the file tree is not changed.
\<close>

theorem list_directory_outcomes:
  assumes "validate_path srv p = Inr q"
  shows "(\<not> Path_exists (files w) q \<longrightarrow>
            fst (list_directory srv (PyStr p) w)
              = Inl (FileNotFoundError (lit ''Directory not found: '' @ p)))
       \<and> (Path_is_file (files w) q \<longrightarrow>
            fst (list_directory srv (PyStr p) w)
              = Inl (ValueError (lit ''Not a directory: '' @ p)))
       \<and> (\<forall>es. walk (files w) q = Inr (Dir es) \<and> distinct (map fst es) \<longrightarrow>
            fst (list_directory srv (PyStr p) w)
              = Inr [TextContent (lit ''text'')
                  (lit ''Contents of '' @ Path_str q @ lit '':'' @ [10]
                   @ join [10]
                       (map (\<lambda>(n, x).
                               ljust 6 (case x of Dir _ \<Rightarrow> lit ''DIR'' | File _ \<Rightarrow> lit ''FILE'')
                               @ lit '' ''
                               @ rjust 10 (decimal (case x of File b \<Rightarrow> length b | Dir _ \<Rightarrow> 0))
                               @ lit '' bytes  '' @ n)
                            (sort_key fst es)))]
          \<and> sorted (map fst (sort_key fst es)) \<and> mset (sort_key fst es) = mset es)
       \<and> files (snd (list_directory srv (PyStr p) w)) = files w"
proof (intro conjI allI impI)
  assume "\<not> Path_exists (files w) q"
  then show "fst (list_directory srv (PyStr p) w)
              = Inl (FileNotFoundError (lit ''Directory not found: '' @ p))"
    by (subst list_directory_result(1)[OF assms])
      (simp add: Path_exists_def split: sum.splits)
next
  assume "Path_is_file (files w) q"
  then show "fst (list_directory srv (PyStr p) w)
              = Inl (ValueError (lit ''Not a directory: '' @ p))"
    by (subst list_directory_result(1)[OF assms])
      (auto simp: Path_is_file_def split: sum.splits node.splits)
next
  fix es assume a: "walk (files w) q = Inr (Dir es) \<and> distinct (map fst es)"
  then show "fst (list_directory srv (PyStr p) w)
              = Inr [TextContent (lit ''text'')
                  (lit ''Contents of '' @ Path_str q @ lit '':'' @ [10]
                   @ join [10]
                       (map (\<lambda>(n, x).
                               ljust 6 (case x of Dir _ \<Rightarrow> lit ''DIR'' | File _ \<Rightarrow> lit ''FILE'')
                               @ lit '' ''
                               @ rjust 10 (decimal (case x of File b \<Rightarrow> length b | Dir _ \<Rightarrow> 0))
                               @ lit '' bytes  '' @ n)
                            (sort_key fst es)))]"
    by (subst list_directory_result(1)[OF assms]) (simp add: listing_lines)
  show "sorted (map fst (sort_key fst es))" by simp
  show "mset (sort_key fst es) = mset es" by simp
next
  show "files (snd (list_directory srv (PyStr p) w)) = files w"
    by (rule list_directory_result(2)[OF assms])
qed

theorem list_directory_outcomes_witness:
  "validate_path \<lparr>allowed_directory = [lit ''data'']\<rparr> (lit ''.'') = Inr [lit ''data'']
   \<and> fst (list_directory \<lparr>allowed_directory = [lit ''data'']\<rparr> (PyStr (lit ''.''))
        \<lparr>files = Dir [(lit ''data'',
                   Dir [(lit ''y'', Dir []), (lit ''x.txt'', File (lit ''0123456789''))])],
         calls = []\<rparr>)
     = Inr [TextContent (lit ''text'')
          (lit ''Contents of /data:'' @ [10]
           @ lit ''FILE           10 bytes  x.txt'' @ [10]
           @ lit ''DIR             0 bytes  y'')]"
proof -
  have v: "validate_path \<lparr>allowed_directory = [lit ''data'']\<rparr> (lit ''.'') = Inr [lit ''data'']"
    by (simp add: path_eval)
  have d: "walk (files \<lparr>files = Dir [(lit ''data'',
                   Dir [(lit ''y'', Dir []), (lit ''x.txt'', File (lit ''0123456789''))])],
         calls = []\<rparr>) [lit ''data'']
        = Inr (Dir [(lit ''y'', Dir []), (lit ''x.txt'', File (lit ''0123456789''))])
      \<and> distinct (map fst [(lit ''y'', Dir []), (lit ''x.txt'', File (lit ''0123456789''))])"
    by (simp add: lit_def)
  have ev: "lit ''Contents of '' @ Path_str [lit ''data''] @ lit '':'' @ [10] @
     join [10]
      (map (\<lambda>(n, x).
               ljust 6 (case x of Dir _ \<Rightarrow> lit ''DIR'' | File _ \<Rightarrow> lit ''FILE'') @
               lit '' '' @
               rjust 10 (decimal (case x of File b \<Rightarrow> length b | Dir _ \<Rightarrow> 0)) @
               lit '' bytes  '' @ n)
        (sort_key fst [(lit ''y'', Dir []), (lit ''x.txt'', File (lit ''0123456789''))]))
   = lit ''Contents of /data:'' @ [10]
           @ lit ''FILE           10 bytes  x.txt'' @ [10]
           @ lit ''DIR             0 bytes  y''"
    by code_simp
  note th = list_directory_outcomes [OF v, THEN conjunct2, THEN conjunct2, THEN conjunct1,
      rule_format, OF d, THEN conjunct1]
  from th have "fst (list_directory \<lparr>allowed_directory = [lit ''data'']\<rparr> (PyStr (lit ''.''))
        \<lparr>files = Dir [(lit ''data'',
                   Dir [(lit ''y'', Dir []), (lit ''x.txt'', File (lit ''0123456789''))])],
         calls = []\<rparr>)
     = Inr [TextContent (lit ''text'')
          (lit ''Contents of /data:'' @ [10]
           @ lit ''FILE           10 bytes  x.txt'' @ [10]
           @ lit ''DIR             0 bytes  y'')]"
    by (simp only: ev)
  with v show ?thesis by (rule conjI)
qed

subsection \<open>Unknown operations\<close>

lemma catalogue_names:
  "tool_name ` set list_tools = {lit ''read_file'', lit ''list_directory'', lit ''write_file''}"
  by (auto simp: list_tools_def)

text \<open>
  Claim C8. A request whose operation name is not in the catalogue gets the failure
  \<^verbatim>\<open>Error: Unknown tool: <name>\<close> as its one reply, whatever its arguments are, and
  leaves the state as it was; \<open>call_tool\<close> returns a reply, so nothing is raised
  towards the transport.
\<close>

theorem unknown_operation_failure:
  assumes "name \<notin> tool_name ` set list_tools"
  shows "call_tool srv name arguments w =
           ([TextContent (lit ''text'') (lit ''Error: Unknown tool: '' @ name)], w)"
  using assms unfolding catalogue_names
  by (simp add: call_tool_def call_tool_try_def lit_def)

theorem unknown_operation_failure_witness:
  "lit ''delete_file'' \<notin> tool_name ` set list_tools
   \<and> call_tool \<lparr>allowed_directory = [lit ''data'']\<rparr> (lit ''delete_file'')
         (Map.empty(lit ''path'' \<mapsto> PyStr (lit ''a.txt''))) \<lparr>files = Dir [], calls = []\<rparr>
       = ([TextContent (lit ''text'') (lit ''Error: Unknown tool: delete_file'')],
          \<lparr>files = Dir [], calls = []\<rparr>)"
proof -
  have out: "lit ''delete_file'' \<notin> tool_name ` set list_tools"
    by (simp add: list_tools_def lit_def)
  show ?thesis
    using out unknown_operation_failure [OF out] by (simp add: lit_def)
qed

end
